theory Spec2Isabelle
  imports Main
begin

section \<open>Strings and their normalization\<close>

text \<open>
  A Python \<open>str\<close> is a sequence of Unicode code points; it is modelled as a list of
  natural numbers. \<open>str\<close> turns an ASCII literal into such a list.
\<close>

type_synonym pystr = "nat list"

definition str :: "string \<Rightarrow> pystr" where
  "str s = map of_char s"

text \<open>
  \<open>isspace\<close> holds of the code points that Python's \<open>str.strip()\<close> removes when it is
  called without an argument, which is how \<open>Series.str.strip()\<close> calls it.
\<close>

definition isspace :: "nat \<Rightarrow> bool" where
  "isspace c \<longleftrightarrow>
     (9 \<le> c \<and> c \<le> 13) \<or> (28 \<le> c \<and> c \<le> 32) \<or> c = 133 \<or> c = 160 \<or> c = 5760 \<or>
     (8192 \<le> c \<and> c \<le> 8202) \<or> c = 8232 \<or> c = 8233 \<or> c = 8239 \<or> c = 8287 \<or> c = 12288"

text \<open>
  \<open>str.upper()\<close> maps every code point to its full Unicode uppercase, which may be
  more than one code point. The mapping is written out for the blocks Basic Latin and
  Latin-1 Supplement (U+0000 to U+00FF), the alphabet of the department names; a code
  point above U+00FF is left as it is.
\<close>

definition upper_cp :: "nat \<Rightarrow> pystr" where
  "upper_cp c =
     (if 97 \<le> c \<and> c \<le> 122 then [c - 32]
      else if c = 181 then [924]
      else if c = 223 then [83, 83]
      else if 224 \<le> c \<and> c \<le> 254 \<and> c \<noteq> 247 then [c - 32]
      else if c = 255 then [376]
      else [c])"

definition upper :: "pystr \<Rightarrow> pystr" where
  "upper s = concat (map upper_cp s)"

definition lstrip :: "pystr \<Rightarrow> pystr" where
  "lstrip s = dropWhile isspace s"

definition rstrip :: "pystr \<Rightarrow> pystr" where
  "rstrip s = rev (dropWhile isspace (rev s))"

definition strip :: "pystr \<Rightarrow> pystr" where
  "strip s = rstrip (lstrip s)"

text \<open>The normalization of lines 46 and 47: \<open>.str.upper().str.strip()\<close> on one cell.\<close>

definition normalize :: "pystr \<Rightarrow> pystr" where
  "normalize s = strip (upper s)"

text \<open>
  Two strings differ only in case when they have the same length and, position by
  position, hold the same code point or a letter and its other case (the letters of
  Basic Latin and Latin-1 Supplement whose two cases are both single code points of
  those blocks).
\<close>

definition case_pair :: "nat \<Rightarrow> nat \<Rightarrow> bool" where
  "case_pair c d \<longleftrightarrow>
     (65 \<le> c \<and> c \<le> 90 \<and> d = c + 32) \<or>
     (192 \<le> c \<and> c \<le> 222 \<and> c \<noteq> 215 \<and> d = c + 32)"

definition differ_only_in_case :: "pystr \<Rightarrow> pystr \<Rightarrow> bool" where
  "differ_only_in_case s t \<longleftrightarrow> list_all2 (\<lambda>c d. c = d \<or> case_pair c d \<or> case_pair d c) s t"

section \<open>The data\<close>

text \<open>
  A row of the GeoDataFrame read from the GeoJSON file: the department name and the
  geometry, whose type is left open. A row of the DataFrame read from the Excel file:
  the department and the publication year; an empty
  cell is \<open>None\<close>. The year is of any linearly ordered type.
\<close>

record 'g region =
  NOMBRE_DPT :: "pystr option"
  geometry :: 'g

record 'y project =
  Departamento :: "pystr option"
  Anio_de_publicacion :: "'y option"

text \<open>
  A row of \<open>gdf_merged\<close>: the columns of the region, then the two columns of the right
  table. \<open>'c\<close> is \<open>int option\<close> after the merge and \<open>int\<close> after \<open>fillna(0)\<close>.
\<close>

record ('g, 'c) merged_row = "'g region" +
  Departamento_right :: "pystr option"
  Cantidad_Proyectos :: 'c

section \<open>The table operations\<close>

fun dropna :: "'a option list \<Rightarrow> 'a list" where
  "dropna [] = []"
| "dropna (None # xs) = dropna xs"
| "dropna (Some x # xs) = x # dropna xs"

text \<open>The distinct values of a column, in the order of their first occurrence.\<close>

definition unique :: "'a list \<Rightarrow> 'a list" where
  "unique xs = rev (remdups (rev xs))"

text \<open>
  \<open>Series.value_counts().reset_index()\<close>: missing cells are dropped, every distinct
  value gets the number of its occurrences, and the rows are sorted by that number,
  largest first. Rows with the same number stay in the order of first occurrence.
\<close>

definition value_counts :: "'a option list \<Rightarrow> ('a \<times> int) list" where
  "value_counts col =
     (let vals = dropna col
      in sort_key (\<lambda>kc. - snd kc) (map (\<lambda>k. (k, int (count_list vals k))) (unique vals)))"

text \<open>
  \<open>left.merge(right, left_on='NOMBRE_DPT', right_on='Departamento', how='left')\<close>:
  the rows of the left table in their order; a left row is paired with every right row
  of the same key, in the order of the right table, and stands alone with missing right
  columns when there is none. The keys of the right table are never missing.
\<close>

definition merge_row :: "'g region \<Rightarrow> (pystr \<times> int) option \<Rightarrow> ('g, int option) merged_row" where
  "merge_row l m =
     \<lparr>NOMBRE_DPT = NOMBRE_DPT l, geometry = geometry l,
      Departamento_right = map_option fst m, Cantidad_Proyectos = map_option snd m\<rparr>"

definition matches :: "'g region \<Rightarrow> (pystr \<times> int) list \<Rightarrow> (pystr \<times> int) list" where
  "matches l right = filter (\<lambda>kc. NOMBRE_DPT l = Some (fst kc)) right"

definition merge_left :: "'g region list \<Rightarrow> (pystr \<times> int) list \<Rightarrow> ('g, int option) merged_row list" where
  "merge_left left right =
     concat (map (\<lambda>l. case matches l right of
                         [] \<Rightarrow> [merge_row l None]
                       | ms \<Rightarrow> map (\<lambda>kc. merge_row l (Some kc)) ms) left)"

definition fillna :: "int \<Rightarrow> ('g, int option) merged_row list \<Rightarrow> ('g, int) merged_row list" where
  "fillna v rows =
     map (\<lambda>m. \<lparr>NOMBRE_DPT = NOMBRE_DPT m, geometry = geometry m,
               Departamento_right = Departamento_right m,
               Cantidad_Proyectos = (case Cantidad_Proyectos m of None \<Rightarrow> v | Some c \<Rightarrow> c)\<rparr>) rows"

text \<open>
  \<open>df.dropna(subset=[year])\<close>, then \<open>groupby(year).size().reset_index()\<close>: one row for
  every distinct key, the keys in ascending order, with the size of the group; then
  \<open>sort_values(year)\<close>.
\<close>

definition dropna_subset :: "'y project list \<Rightarrow> 'y project list" where
  "dropna_subset df = filter (\<lambda>p. Anio_de_publicacion p \<noteq> None) df"

definition groupby_size :: "('k::linorder) option list \<Rightarrow> ('k \<times> int) list" where
  "groupby_size col =
     (let ks = dropna col
      in map (\<lambda>k. (k, int (count_list ks k))) (sort (remdups ks)))"

definition sort_values :: "(('k::linorder) \<times> int) list \<Rightarrow> ('k \<times> int) list" where
  "sort_values rows = sort_key fst rows"

section \<open>The script\<close>

text \<open>
  The values of the script's variables when the branch of line 38 has run to its end,
  computed from the rows of the two frames; the column accesses of lines 41, 46, 47 and
  98 and the exceptions they raise are the matter of \<open>ejecutar\<close> below. \<open>gdf\<close> after
  the assignment of line 47, \<open>proyectos_por_depto\<close> after line 46, \<open>gdf_merged\<close> after
  line 58 (the reprojection of line 61 touches the geometry only and is left out),
  \<open>proyectos_por_anio\<close> after line 100, and the metrics of lines 132 and 135.
\<close>

record ('g, 'y) variables =
  gdf :: "'g region list"
  df_excel :: "'y project list"
  proyectos_por_depto :: "(pystr \<times> int) list"
  gdf_merged :: "('g, int) merged_row list"
  proyectos_por_anio :: "('y \<times> int) list"
  total_de_proyectos :: nat
  departamentos_con_proyectos :: nat

definition procesar :: "'g region list \<Rightarrow> ('y::linorder) project list \<Rightarrow> ('g, 'y) variables" where
  "procesar gdf0 df =
     (let counted = value_counts (map Departamento df);
          por_depto = map (\<lambda>(k, c). (normalize k, c)) counted;
          gdf1 = map (\<lambda>r. r\<lparr>NOMBRE_DPT := map_option normalize (NOMBRE_DPT r)\<rparr>) gdf0;
          merged = fillna 0 (merge_left gdf1 por_depto);
          df_excel_clean = dropna_subset df;
          por_anio = sort_values (groupby_size (map Anio_de_publicacion df_excel_clean))
      in \<lparr>gdf = gdf1, df_excel = df, proyectos_por_depto = por_depto, gdf_merged = merged,
          proyectos_por_anio = por_anio, total_de_proyectos = length df,
          departamentos_con_proyectos = length (filter (\<lambda>m. Cantidad_Proyectos m > 0) merged)\<rparr>)"

text \<open>The two aggregates of the specification are two of these variables.\<close>

definition aggregateByRegion :: "'g region list \<Rightarrow> ('y::linorder) project list \<Rightarrow> ('g, int) merged_row list" where
  "aggregateByRegion R P = gdf_merged (procesar R P)"

definition aggregateByYear :: "('y::linorder) project list \<Rightarrow> ('y \<times> int) list" where
  "aggregateByYear P = proyectos_por_anio (procesar ([] :: unit region list) P)"

subsection \<open>Loading\<close>

text \<open>
  What a read can raise: an instance of \<open>Exception\<close> (every parse and input/output
  error is one), which \<open>except Exception\<close> catches, or another \<open>BaseException\<close> such as
  \<open>KeyboardInterrupt\<close>, which it does not. The outcome of \<open>gpd.read_file\<close> and of
  \<open>pd.read_excel\<close> on the two fixed paths is the input of the model.
\<close>

datatype exn = Exception string | OtherBaseException string

text \<open>
  What the two reads return. A GeoDataFrame has a column \<open>NOMBRE_DPT\<close> when a feature of
  the file has that property; a \<open>FeatureCollection\<close> without features gives a frame with
  the geometry column alone, \<open>GeoDataFrame_sin_NOMBRE_DPT []\<close>. A DataFrame has the
  columns of the header row of the sheet; a sheet with its header and no row below it
  is \<open>hoja []\<close>.
\<close>

datatype 'g geoframe = GeoDataFrame "'g region list" | GeoDataFrame_sin_NOMBRE_DPT "'g list"

record 'y dataframe =
  col_Departamento :: bool
  col_Anio_de_publicacion :: bool
  filas :: "'y project list"

definition hoja :: "'y project list \<Rightarrow> 'y dataframe" where
  "hoja rows = \<lparr>col_Departamento = True, col_Anio_de_publicacion = True, filas = rows\<rparr>"

record ('g, 'y) files =
  read_file :: "exn + 'g geoframe"
  read_excel :: "exn + 'y dataframe"

text \<open>
  \<open>cargar_datos\<close> returns a pair and what it has shown with \<open>st.error\<close> (the text
  of the exception, which follows a fixed prefix on the page), or lets the exception
  through (\<open>Inl\<close>). The Excel file is read only when the GeoJSON file has been read.
\<close>

definition cargar_datos ::
  "('g, 'y) files \<Rightarrow> exn + ('g geoframe option \<times> 'y dataframe option) \<times> string list" where
  "cargar_datos fs =
     (case read_file fs of
        Inl (Exception e) \<Rightarrow> Inr ((None, None), [e])
      | Inl (OtherBaseException e) \<Rightarrow> Inl (OtherBaseException e)
      | Inr gdf0 \<Rightarrow>
          (case read_excel fs of
             Inl (Exception e) \<Rightarrow> Inr ((None, None), [e])
           | Inl (OtherBaseException e) \<Rightarrow> Inl (OtherBaseException e)
           | Inr df \<Rightarrow> Inr ((Some gdf0, Some df), [])))"

text \<open>
  Lines 41 to 161, with the exceptions of the column accesses, in the order of the
  script. Line 41 indexes the column \<open>Departamento\<close>. Line 46 takes the string accessor
  of the counted keys, which are strings, or of no key when the sheet has no row; when
  the sheet has rows and every cell of the column is empty, the column is one of
  numbers and the accessor raises. Line 47 indexes the column \<open>NOMBRE_DPT\<close>, and line 98
  the column of the year.
\<close>

datatype py_error = KeyError string | AttributeError string

definition ejecutar :: "'g geoframe \<Rightarrow> ('y::linorder) dataframe \<Rightarrow> py_error + ('g, 'y) variables" where
  "ejecutar g d =
     (if \<not> col_Departamento d then Inl (KeyError ''Departamento'')
      else if filas d \<noteq> [] \<and> list_all (\<lambda>p. Departamento p = None) (filas d)
        then Inl (AttributeError ''Can only use .str accessor with string values'')
      else (case g of
              GeoDataFrame_sin_NOMBRE_DPT geoms \<Rightarrow> Inl (KeyError ''NOMBRE_DPT'')
            | GeoDataFrame rows \<Rightarrow>
                if \<not> col_Anio_de_publicacion d then Inl (KeyError ''Anio de publicacion'')
                else Inr (procesar rows (filas d))))"

text \<open>
  Lines 38 to 173: the error panel when a value is missing; otherwise the dashboard, or
  the exception that the script has not caught, which the page shows in its place.
\<close>

datatype ('g, 'y) page = Dashboard "('g, 'y) variables" | ErrorPanel | Uncaught py_error

definition render :: "'g geoframe option \<Rightarrow> ('y::linorder) dataframe option \<Rightarrow> ('g, 'y) page" where
  "render g d =
     (case g of
        None \<Rightarrow> ErrorPanel
      | Some gdf0 \<Rightarrow>
          (case d of
             None \<Rightarrow> ErrorPanel
           | Some df \<Rightarrow> (case ejecutar gdf0 df of Inl e \<Rightarrow> Uncaught e | Inr v \<Rightarrow> Dashboard v)))"

definition app :: "('g, 'y::linorder) files \<Rightarrow> exn + ('g, 'y) page \<times> string list" where
  "app fs =
     (case cargar_datos fs of
        Inl b \<Rightarrow> Inl b
      | Inr ((g, d), shown) \<Rightarrow> Inr (render g d, shown))"

section \<open>Notions of the specification and example data\<close>

text \<open>
  A record is matched when it has a department whose normalization is the normalized
  name of some region.
\<close>

definition matched :: "'g region list \<Rightarrow> 'y project \<Rightarrow> bool" where
  "matched R p =
     (case Departamento p of
        None \<Rightarrow> False
      | Some d \<Rightarrow> normalize d \<in> set (dropna (map (\<lambda>r. map_option normalize (NOMBRE_DPT r)) R)))"

text \<open>The number of records whose normalized department is \<open>n\<close>.\<close>

definition count_normalized :: "'y project list \<Rightarrow> pystr \<Rightarrow> int" where
  "count_normalized P n =
     int (length (filter (\<lambda>p. map_option normalize (Departamento p) = Some n) P))"

definition depto :: "string \<Rightarrow> unit region" where
  "depto s = \<lparr>NOMBRE_DPT = Some (str s), geometry = ()\<rparr>"

definition registro :: "string \<Rightarrow> int option \<Rightarrow> int project" where
  "registro s y = \<lparr>Departamento = Some (str s), Anio_de_publicacion = y\<rparr>"

text \<open>
  The example of the specification: two regions, and three records of which two name
  Antioquia, in two spellings.
\<close>

definition antioquia_choco :: "unit region list" where
  "antioquia_choco = [depto ''ANTIOQUIA'', depto ''CHOCO'']"

definition tres_registros :: "int project list" where
  "tres_registros = [registro ''Antioquia'' None, registro ''antioquia '' None, registro ''Valle'' None]"

definition cesar :: "unit region list" where
  "cesar = [depto ''Cesar'']"

definition registros_cesar :: "int project list" where
  "registros_cesar = [registro ''CESAR'' None, registro ''Cesar'' None, registro ''Cesar'' None]"

definition cesar_dos_veces :: "unit region list" where
  "cesar_dos_veces = [depto ''Cesar'', depto ''CESAR'']"

definition registros_con_anio :: "int project list" where
  "registros_con_anio =
     [registro ''Cesar'' (Some 2020), registro ''Cesar'' (Some 2019),
      registro ''Valle'' (Some 2020), registro ''Valle'' None]"

text \<open>
  The three spellings of the specification's example, with U+00E1 and U+00C1 for the
  accented letter: padded lower case, upper case, capitalized.
\<close>

definition bogota_padded :: pystr where
  "bogota_padded = [32, 98, 111, 103, 111, 116, 225, 32]"

definition bogota_upper :: pystr where
  "bogota_upper = [66, 79, 71, 79, 84, 193]"

definition bogota_capitalized :: pystr where
  "bogota_capitalized = [66, 111, 103, 111, 116, 225]"

section \<open>Normalization\<close>

lemma upper_cp_fixed: "d \<in> set (upper_cp c) \<Longrightarrow> upper_cp d = [d]"
  by (auto simp: upper_cp_def split: if_splits)

lemma upper_cp_isspace: "isspace c \<Longrightarrow> upper_cp c = [c]"
  by (auto simp: upper_cp_def isspace_def)

lemma upper_append: "upper (s @ t) = upper s @ upper t"
  by (simp add: upper_def)

lemma upper_fixed: "\<forall>d\<in>set t. upper_cp d = [d] \<Longrightarrow> upper t = t"
  by (induction t) (simp_all add: upper_def)

lemma upper_spaces: "\<forall>c\<in>set a. isspace c \<Longrightarrow> upper a = a"
  by (simp add: upper_fixed upper_cp_isspace)

lemma set_upper_fixed: "d \<in> set (upper s) \<Longrightarrow> upper_cp d = [d]"
  by (auto simp: upper_def dest: upper_cp_fixed)

lemma set_strip: "set (strip s) \<subseteq> set s"
  unfolding strip_def lstrip_def rstrip_def
  by (metis set_dropWhileD set_rev subsetI)

lemma rstrip_Cons:
  "rstrip (x # xs) = (if \<forall>c\<in>set xs. isspace c then (if isspace x then [] else [x]) else x # rstrip xs)"
  by (simp add: rstrip_def dropWhile_append)

lemma rstrip_Nil_iff: "rstrip xs = [] \<longleftrightarrow> (\<forall>c\<in>set xs. isspace c)"
  by (simp add: rstrip_def dropWhile_eq_Nil_conv)

lemma lstrip_rstrip: "lstrip (rstrip s) = rstrip (lstrip s)"
proof (induction s)
  case Nil
  show ?case by (simp add: lstrip_def rstrip_def)
next
  case (Cons x xs)
  show ?case
  proof (cases "isspace x")
    case True
    then show ?thesis using Cons
      by (auto simp: rstrip_Cons lstrip_def rstrip_Nil_iff[symmetric] dropWhile_eq_Nil_conv)
  next
    case False
    then show ?thesis by (simp add: rstrip_Cons lstrip_def)
  qed
qed

lemma strip_idem: "strip (strip s) = strip s"
proof -
  have "strip (strip s) = rstrip (rstrip (lstrip (lstrip s)))"
    by (simp add: strip_def lstrip_rstrip)
  also have "\<dots> = strip s"
    by (simp add: strip_def lstrip_def rstrip_def)
  finally show ?thesis .
qed

lemma strip_pad:
  assumes "\<forall>c\<in>set a. isspace c" "\<forall>c\<in>set b. isspace c"
  shows "strip (a @ s @ b) = strip s"
proof -
  have "strip (a @ s @ b) = rstrip (lstrip (s @ b))"
    using assms(1) by (simp add: strip_def lstrip_def)
  also have "\<dots> = lstrip (rstrip (s @ b))" by (simp add: lstrip_rstrip)
  also have "rstrip (s @ b) = rstrip s"
    using assms(2) by (simp add: rstrip_def dropWhile_append)
  finally show ?thesis by (simp add: strip_def lstrip_rstrip)
qed

lemma case_pair_upper_cp: "case_pair c d \<Longrightarrow> upper_cp c = upper_cp d"
  unfolding case_pair_def
proof (elim disjE conjE)
  assume "65 \<le> c" "c \<le> 90" "d = c + 32"
  then show ?thesis by (simp add: upper_cp_def)
next
  assume "192 \<le> c" "c \<le> 222" "c \<noteq> 215" "d = c + 32"
  then show ?thesis by (simp add: upper_cp_def)
qed

lemma differ_only_in_case_upper: "differ_only_in_case s t \<Longrightarrow> upper s = upper t"
  unfolding differ_only_in_case_def
  by (induction rule: list_all2_induct) (auto simp: upper_def dest: case_pair_upper_cp)

lemma normalize_idem: "normalize (normalize s) = normalize s"
proof -
  have "\<forall>d\<in>set (strip (upper s)). upper_cp d = [d]"
    using set_strip[of "upper s"] set_upper_fixed by blast
  then have "upper (strip (upper s)) = strip (upper s)" by (rule upper_fixed)
  then show ?thesis by (simp add: normalize_def strip_idem)
qed

lemma normalize_pad:
  "\<forall>c\<in>set a. isspace c \<Longrightarrow> \<forall>c\<in>set b. isspace c \<Longrightarrow> normalize (a @ s @ b) = normalize s"
  by (simp add: normalize_def upper_append upper_spaces strip_pad)

text \<open>
  C7: normalization (upper case, then strip) is idempotent, and it gives the same result
  for two strings that differ only in case and for a string with and without white space
  around it; the three spellings of the example normalize to the same string.
\<close>

theorem normalize_idempotent_insensitive:
  "normalize (normalize s) = normalize s \<and>
   (differ_only_in_case s t \<longrightarrow> normalize s = normalize t) \<and>
   ((\<forall>c\<in>set a \<union> set b. isspace c) \<longrightarrow> normalize (a @ s @ b) = normalize s) \<and>
   normalize bogota_padded = normalize bogota_upper \<and>
   normalize bogota_capitalized = normalize bogota_upper"
proof (intro conjI impI)
  show "normalize (normalize s) = normalize s" by (rule normalize_idem)
  show "normalize s = normalize t" if "differ_only_in_case s t"
    using that by (simp add: normalize_def differ_only_in_case_upper)
  show "normalize (a @ s @ b) = normalize s" if "\<forall>c\<in>set a \<union> set b. isspace c"
    using that by (simp add: normalize_pad)
  show "normalize bogota_padded = normalize bogota_upper"
    by (simp add: bogota_padded_def bogota_upper_def normalize_def strip_def lstrip_def
        rstrip_def upper_def upper_cp_def isspace_def)
  show "normalize bogota_capitalized = normalize bogota_upper"
    by (simp add: bogota_capitalized_def bogota_upper_def normalize_def strip_def lstrip_def
        rstrip_def upper_def upper_cp_def isspace_def)
qed

theorem normalize_idempotent_insensitive_witness:
  "differ_only_in_case bogota_capitalized bogota_upper \<and>
   normalize bogota_capitalized = normalize bogota_upper \<and>
   list_all isspace [32, 9] \<and> list_all isspace [160, 10] \<and>
   normalize ([32, 9] @ bogota_capitalized @ [160, 10]) = normalize bogota_capitalized \<and>
   normalize (normalize bogota_capitalized) = normalize bogota_capitalized"
proof -
  have d: "differ_only_in_case bogota_capitalized bogota_upper"
    by (simp add: differ_only_in_case_def bogota_capitalized_def bogota_upper_def case_pair_def)
  have w: "\<forall>c\<in>set [32, 9] \<union> set [160, 10]. isspace c"
    by (simp add: isspace_def)
  have l: "list_all isspace [32, 9]" "list_all isspace [160, 10]"
    by (simp_all add: isspace_def)
  show ?thesis
    using d w l
      normalize_idempotent_insensitive [of bogota_capitalized bogota_upper "[32, 9]" "[160, 10]"]
    by blast
qed

section \<open>The aggregate per year\<close>

lemma count_list_dropna: "count_list (dropna col) y = count_list col (Some y)"
  by (induction col rule: dropna.induct) auto

lemma count_list_pos: "x \<in> set xs \<Longrightarrow> 0 < count_list xs x"
  using count_list_0_iff [of xs x] by simp

lemma set_dropna: "set (dropna col) = {y. Some y \<in> set col}"
  by (induction col rule: dropna.induct) auto

lemma dropna_dropna_subset:
  "dropna (map Anio_de_publicacion (dropna_subset df)) = dropna (map Anio_de_publicacion df)"
proof (induction df)
  case Nil
  show ?case by (simp add: dropna_subset_def)
next
  case (Cons p df)
  then show ?case by (cases "Anio_de_publicacion p") (simp_all add: dropna_subset_def)
qed

lemma map_fst_groupby_size: "map fst (groupby_size col) = sort (remdups (dropna col))"
  by (simp add: groupby_size_def Let_def comp_def)

lemma sort_values_groupby_size: "sort_values (groupby_size col) = groupby_size col"
  unfolding sort_values_def
  by (rule sort_key_id_if_sorted) (simp add: map_fst_groupby_size)

lemma aggregateByYear_eq:
  "aggregateByYear P = groupby_size (map Anio_de_publicacion P)"
proof -
  have "aggregateByYear P = groupby_size (map Anio_de_publicacion (dropna_subset P))"
    by (simp add: aggregateByYear_def procesar_def Let_def sort_values_groupby_size)
  also have "\<dots> = groupby_size (map Anio_de_publicacion P)"
    by (simp add: groupby_size_def dropna_dropna_subset)
  finally show ?thesis .
qed

text \<open>
  C5: the aggregate per year has strictly increasing years, so no year twice; every
  row holds a year that some record has, with the number of records of that year, which
  is positive; and the records without a year leave no trace: the aggregate is the one
  of the records that have a year.
\<close>

theorem aggregateByYear_sorted_positive:
  fixes P :: "('y::linorder) project list"
  shows "sorted_wrt (<) (map fst (aggregateByYear P)) \<and>
   distinct (map fst (aggregateByYear P)) \<and>
   (\<forall>(y, c) \<in> set (aggregateByYear P).
      c = int (count_list (map Anio_de_publicacion P) (Some y)) \<and> 0 < c) \<and>
   fst ` set (aggregateByYear P) = {y. Some y \<in> Anio_de_publicacion ` set P} \<and>
   aggregateByYear P = aggregateByYear (filter (\<lambda>p. Anio_de_publicacion p \<noteq> None) P)"
proof (intro conjI)
  let ?col = "map Anio_de_publicacion P"
  have keys: "map fst (aggregateByYear P) = sort (remdups (dropna ?col))"
    by (simp add: aggregateByYear_eq map_fst_groupby_size)
  show "sorted_wrt (<) (map fst (aggregateByYear P))"
    by (simp add: keys strict_sorted_iff)
  show "distinct (map fst (aggregateByYear P))"
    by (simp add: keys)
  show "\<forall>(y, c) \<in> set (aggregateByYear P).
      c = int (count_list ?col (Some y)) \<and> 0 < c"
    by (auto simp: aggregateByYear_eq groupby_size_def count_list_dropna set_dropna
        intro!: count_list_pos)
  show "fst ` set (aggregateByYear P) = {y. Some y \<in> Anio_de_publicacion ` set P}"
    using keys set_map[of fst "aggregateByYear P"] by (simp add: set_dropna)
  have "aggregateByYear (dropna_subset P) = aggregateByYear P"
    by (simp add: aggregateByYear_eq groupby_size_def dropna_dropna_subset)
  then show "aggregateByYear P = aggregateByYear (filter (\<lambda>p. Anio_de_publicacion p \<noteq> None) P)"
    by (simp add: dropna_subset_def)
qed

lemma aggregateByYear_example: "aggregateByYear registros_con_anio = [(2019, 1), (2020, 2)]"
  by (simp add: aggregateByYear_eq groupby_size_def registros_con_anio_def registro_def)

theorem aggregateByYear_sorted_positive_witness:
  "(2020, 2) \<in> set (aggregateByYear registros_con_anio) \<and>
   2 = int (count_list (map Anio_de_publicacion registros_con_anio) (Some 2020)) \<and>
   aggregateByYear registros_con_anio = [(2019, 1), (2020, 2)] \<and>
   sorted_wrt (<) (map fst (aggregateByYear registros_con_anio))"
proof -
  have m: "(2020, 2) \<in> set (aggregateByYear registros_con_anio)"
    by (simp add: aggregateByYear_example)
  note t = aggregateByYear_sorted_positive [of registros_con_anio]
  have q: "\<forall>(y, c) \<in> set (aggregateByYear registros_con_anio).
      c = int (count_list (map Anio_de_publicacion registros_con_anio) (Some y)) \<and> 0 < c"
    using t by (elim conjE)
  have s: "sorted_wrt (<) (map fst (aggregateByYear registros_con_anio))"
    using t by (elim conjE)
  have "2 = int (count_list (map Anio_de_publicacion registros_con_anio) (Some 2020))"
    using q m by blast
  with m s show ?thesis by (simp add: aggregateByYear_example)
qed

section \<open>Loading and the choice of the page\<close>

text \<open>
  C6: when reading the GeoJSON file fails, or reading the Excel file after it, with an
  instance of \<open>Exception\<close>, \<open>cargar_datos\<close> returns the pair \<open>(None, None)\<close> after showing
  the text of the exception, and the script goes on to the error panel: the exception
  does not leave the loader.
\<close>

theorem loader_sentinel:
  assumes "read_file fs = Inl (Exception e) \<or>
           (\<exists>g. read_file fs = Inr g \<and> read_excel fs = Inl (Exception e))"
  shows "cargar_datos fs = Inr ((None, None), [e]) \<and> app fs = Inr (ErrorPanel, [e])"
  using assms by (auto simp: cargar_datos_def app_def render_def)

theorem loader_sentinel_witness:
  "cargar_datos \<lparr>read_file = (Inl (Exception ''No such file'') :: exn + unit geoframe),
       read_excel = Inr (hoja registros_cesar)\<rparr> =
     Inr ((None, None), [''No such file'']) \<and>
   app \<lparr>read_file = Inr (GeoDataFrame cesar),
       read_excel = Inl (Exception ''Bad zip file'') :: exn + int dataframe\<rparr> =
     Inr (ErrorPanel, [''Bad zip file''])"
  using
    loader_sentinel [of "\<lparr>read_file = (Inl (Exception ''No such file'') :: exn + unit geoframe),
       read_excel = Inr (hoja registros_cesar)\<rparr>" "''No such file''"]
    loader_sentinel [of "\<lparr>read_file = Inr (GeoDataFrame cesar),
       read_excel = Inl (Exception ''Bad zip file'') :: exn + int dataframe\<rparr>" "''Bad zip file''"]
  by simp

text \<open>
  C10: a pair returned by \<open>cargar_datos\<close> has both components or none; the script leaves
  the error panel for the aggregation exactly when both values are there, a dashboard is
  computed only from two values that are there, and when the script shows it, the
  loader has returned both collections, from which it is computed.
\<close>

theorem loader_all_or_nothing:
  "(\<forall>g d shown. cargar_datos fs = Inr ((g, d), shown) \<longrightarrow> (g = None \<longleftrightarrow> d = None)) \<and>
   (render g' d' \<noteq> ErrorPanel \<longleftrightarrow> g' \<noteq> None \<and> d' \<noteq> None) \<and>
   (\<forall>v. render g' d' = Dashboard v \<longleftrightarrow>
      (\<exists>g d. g' = Some g \<and> d' = Some d \<and> ejecutar g d = Inr v)) \<and>
   (\<forall>v shown. app fs = Inr (Dashboard v, shown) \<longrightarrow>
      (\<exists>g d. cargar_datos fs = Inr ((Some g, Some d), shown) \<and> ejecutar g d = Inr v))"
  by (auto simp: cargar_datos_def app_def render_def split: sum.splits exn.splits option.splits)

theorem loader_all_or_nothing_witness:
  "app \<lparr>read_file = Inr (GeoDataFrame cesar), read_excel = Inr (hoja registros_cesar)\<rparr> =
     Inr (Dashboard (procesar cesar registros_cesar), []) \<and>
   (\<exists>g d. cargar_datos \<lparr>read_file = Inr (GeoDataFrame cesar), read_excel = Inr (hoja registros_cesar)\<rparr> =
           Inr ((Some g, Some d), []) \<and>
         ejecutar g d = Inr (procesar cesar registros_cesar))"
proof -
  have e: "ejecutar (GeoDataFrame cesar) (hoja registros_cesar) = Inr (procesar cesar registros_cesar)"
    by (simp add: ejecutar_def hoja_def registros_cesar_def registro_def)
  have a: "app \<lparr>read_file = Inr (GeoDataFrame cesar), read_excel = Inr (hoja registros_cesar)\<rparr> =
     Inr (Dashboard (procesar cesar registros_cesar), [])"
    by (simp add: app_def cargar_datos_def render_def e)
  show ?thesis
    using a loader_all_or_nothing
      [of "\<lparr>read_file = Inr (GeoDataFrame cesar), read_excel = Inr (hoja registros_cesar)\<rparr>"]
    by blast
qed

section \<open>The aggregate per region\<close>

lemma sum_list_insort_key: "sum_list (map h (insort_key f x xs)) = h x + sum_list (map h xs)"
  for h :: "'a \<Rightarrow> int"
  by (induction xs) simp_all

lemma sum_list_sort_key: "sum_list (map h (sort_key f xs)) = sum_list (map h xs)"
  for h :: "'a \<Rightarrow> int"
  by (induction xs) (simp_all add: sum_list_insort_key)

lemma count_list_filter: "Q k \<Longrightarrow> count_list (filter Q vals) k = count_list vals k"
  by (induction vals) auto

lemma sum_count_filter:
  assumes "distinct ks" "set ks = set vals"
  shows "(\<Sum>k\<leftarrow>filter Q ks. int (count_list vals k)) = int (length (filter Q vals))"
proof -
  let ?X = "{k \<in> set vals. Q k}"
  have "(\<Sum>k\<leftarrow>filter Q ks. int (count_list vals k)) = (\<Sum>k\<in>?X. int (count_list vals k))"
    using assms by (simp add: sum_list_distinct_conv_sum_set)
  also have "\<dots> = int (\<Sum>k\<in>?X. count_list (filter Q vals) k)"
    by (simp add: count_list_filter)
  also have "(\<Sum>k\<in>?X. count_list (filter Q vals) k) = length (filter Q vals)"
    by (rule sum_count_set) auto
  finally show ?thesis .
qed

lemma distinct_unique: "distinct (unique xs)" and set_unique: "set (unique xs) = set xs"
  by (simp_all add: unique_def)

lemma sum_matching_counts:
  "sum_list (map snd (filter (\<lambda>kc. n = fst kc)
      (map (\<lambda>(k, c). (normalize k, c)) (value_counts col)))) =
   int (length (filter (\<lambda>v. n = normalize v) (dropna col)))"
proof -
  let ?vals = "dropna col"
  let ?rows = "map (\<lambda>k. (k, int (count_list ?vals k))) (unique ?vals)"
  let ?Q = "\<lambda>kc::pystr \<times> int. n = normalize (fst kc)"
  have "filter (\<lambda>kc. n = fst kc) (map (\<lambda>(k, c). (normalize k, c)) (value_counts col)) =
        map (\<lambda>(k, c). (normalize k, c)) (sort_key (\<lambda>kc. - snd kc) (filter ?Q ?rows))"
    by (simp add: value_counts_def Let_def filter_map comp_def case_prod_beta filter_sort)
  then have "sum_list (map snd (filter (\<lambda>kc. n = fst kc)
      (map (\<lambda>(k, c). (normalize k, c)) (value_counts col)))) =
      sum_list (map snd (sort_key (\<lambda>kc. - snd kc) (filter ?Q ?rows)))"
    by (simp add: comp_def case_prod_beta)
  also have "\<dots> = sum_list (map snd (filter ?Q ?rows))"
    by (rule sum_list_sort_key)
  also have "\<dots> = (\<Sum>k\<leftarrow>filter (\<lambda>v. n = normalize v) (unique ?vals). int (count_list ?vals k))"
    by (simp add: filter_map comp_def)
  also have "\<dots> = int (length (filter (\<lambda>v. n = normalize v) ?vals))"
    by (rule sum_count_filter) (simp_all add: distinct_unique set_unique)
  finally show ?thesis .
qed

lemma sum_fillna_merge_left:
  "sum_list (map Cantidad_Proyectos (fillna 0 (merge_left L right))) =
   (\<Sum>l\<leftarrow>L. sum_list (map snd (matches l right)))"
proof (induction L)
  case Nil
  show ?case by (simp add: merge_left_def fillna_def)
next
  case (Cons l L)
  have step: "merge_left (l # L) right =
      (case matches l right of [] \<Rightarrow> [merge_row l None]
       | ms \<Rightarrow> map (\<lambda>kc. merge_row l (Some kc)) ms) @ merge_left L right"
    by (simp add: merge_left_def)
  have one: "sum_list (map Cantidad_Proyectos (fillna 0
      (case matches l right of [] \<Rightarrow> [merge_row l None]
       | ms \<Rightarrow> map (\<lambda>kc. merge_row l (Some kc)) ms))) = sum_list (map snd (matches l right))"
    by (cases "matches l right") (simp_all add: fillna_def merge_row_def comp_def)
  have app: "fillna 0 (xs @ ys) = fillna 0 xs @ fillna 0 ys" for xs ys :: "('a, int option) merged_row list"
    by (simp add: fillna_def)
  show ?case using Cons.IH one by (simp add: step app)
qed

lemma sum_list_case_option:
  "(\<Sum>x\<leftarrow>col. case x of None \<Rightarrow> 0 | Some n \<Rightarrow> f n) = (\<Sum>n\<leftarrow>dropna col. f n)"
  for f :: "'a \<Rightarrow> int"
  by (induction col rule: dropna.induct) simp_all

lemma length_filter_disj:
  "\<forall>v\<in>set xs. \<not> (A v \<and> B v) \<Longrightarrow>
   length (filter (\<lambda>v. A v \<or> B v) xs) = length (filter A xs) + length (filter B xs)"
  by (induction xs) auto

lemma sum_distinct_keys:
  "distinct ns \<Longrightarrow>
   (\<Sum>n\<leftarrow>ns. int (length (filter (\<lambda>v. n = g v) vals))) =
   int (length (filter (\<lambda>v. g v \<in> set ns) vals))"
proof (induction ns)
  case Nil
  show ?case by simp
next
  case (Cons n ns)
  have "length (filter (\<lambda>v. n = g v \<or> g v \<in> set ns) vals) =
        length (filter (\<lambda>v. n = g v) vals) + length (filter (\<lambda>v. g v \<in> set ns) vals)"
    using Cons.prems by (intro length_filter_disj) auto
  moreover have "(\<lambda>v. g v \<in> set (n # ns)) = (\<lambda>v. n = g v \<or> g v \<in> set ns)"
    by auto
  ultimately show ?case using Cons by simp
qed

lemma length_filter_matched:
  "length (filter (\<lambda>v. normalize v \<in> set (dropna (map (\<lambda>r. map_option normalize (NOMBRE_DPT r)) R)))
      (dropna (map Departamento P))) = length (filter (matched R) P)"
proof (induction P)
  case Nil
  show ?case by simp
next
  case (Cons p P)
  then show ?case by (cases "Departamento p") (simp_all add: matched_def)
qed

lemma length_filter_eq_iff: "length (filter Q xs) = length xs \<longleftrightarrow> (\<forall>x\<in>set xs. Q x)"
  by (metis filter_id_conv length_filter_less less_irrefl)

lemma matches_normalized:
  "sum_list (map snd (matches (r\<lparr>NOMBRE_DPT := map_option normalize (NOMBRE_DPT r)\<rparr>)
      (map (\<lambda>(k, c). (normalize k, c)) (value_counts col)))) =
   (case map_option normalize (NOMBRE_DPT r) of None \<Rightarrow> 0
    | Some n \<Rightarrow> int (length (filter (\<lambda>v. n = normalize v) (dropna col))))"
proof (cases "NOMBRE_DPT r")
  case None
  then show ?thesis by (simp add: matches_def)
next
  case (Some a)
  then show ?thesis using sum_matching_counts [of "normalize a" col] by (simp add: matches_def)
qed

lemma sum_aggregateByRegion:
  assumes "distinct (dropna (map (\<lambda>r. map_option normalize (NOMBRE_DPT r)) R))"
  shows "sum_list (map Cantidad_Proyectos (aggregateByRegion R P)) = int (length (filter (matched R) P))"
proof -
  let ?names = "map (\<lambda>r. map_option normalize (NOMBRE_DPT r)) R"
  let ?vals = "dropna (map Departamento P)"
  have "sum_list (map Cantidad_Proyectos (aggregateByRegion R P)) =
      (\<Sum>x\<leftarrow>?names. case x of None \<Rightarrow> 0
          | Some n \<Rightarrow> int (length (filter (\<lambda>v. n = normalize v) ?vals)))"
    by (simp add: aggregateByRegion_def procesar_def Let_def sum_fillna_merge_left comp_def
        matches_normalized)
  also have "\<dots> = (\<Sum>n\<leftarrow>dropna ?names. int (length (filter (\<lambda>v. n = normalize v) ?vals)))"
    by (rule sum_list_case_option)
  also have "\<dots> = int (length (filter (\<lambda>v. normalize v \<in> set (dropna ?names)) ?vals))"
    using assms by (rule sum_distinct_keys)
  also have "\<dots> = int (length (filter (matched R) P))"
    by (simp add: length_filter_matched)
  finally show ?thesis .
qed

subsection \<open>One spelling for every department\<close>

text \<open>
  When no two department strings among the records have the same normalization, the
  aggregate has one row for every region, in the order of the regions, with the
  normalized name, the geometry and the number of records of that normalized name.
\<close>

lemma distinct_map_insort_key:
  "distinct (map g (insort_key f x xs)) \<longleftrightarrow> g x \<notin> g ` set xs \<and> distinct (map g xs)"
  by (induction xs) (auto simp: set_insort_key)

lemma distinct_map_sort_key: "distinct (map g (sort_key f xs)) \<longleftrightarrow> distinct (map g xs)"
  by (induction xs) (simp_all add: distinct_map_insort_key)

lemma distinct_keys_proyectos_por_depto:
  assumes "inj_on normalize (set (dropna col))"
  shows "distinct (map fst (map (\<lambda>(k, c). (normalize k, c)) (value_counts col)))"
proof -
  let ?vals = "dropna col"
  let ?g = "\<lambda>kc::pystr \<times> int. normalize (fst kc)"
  have e: "map fst (map (\<lambda>(k, c). (normalize k, c)) xs) = map ?g xs" for xs :: "(pystr \<times> int) list"
    by (induction xs) auto
  have r: "map ?g (map (\<lambda>k. (k, int (count_list ?vals k))) ks) = map normalize ks" for ks
    by (induction ks) auto
  have "distinct (map normalize (unique ?vals))"
    using assms by (simp add: distinct_map distinct_unique set_unique)
  then have "distinct (map ?g (value_counts col))"
    by (simp only: value_counts_def Let_def distinct_map_sort_key r)
  then show ?thesis by (simp only: e)
qed

lemma length_matches_le_1:
  "distinct (map fst right) \<Longrightarrow> length (matches l right) \<le> 1"
proof (induction right)
  case Nil
  show ?case by (simp add: matches_def)
next
  case (Cons kc right)
  show ?case
  proof (cases "NOMBRE_DPT l = Some (fst kc)")
    case True
    then have "filter (\<lambda>kc'. NOMBRE_DPT l = Some (fst kc')) right = []"
      using Cons.prems by (auto simp: filter_empty_conv)
    with True show ?thesis by (simp add: matches_def)
  next
    case False
    then show ?thesis using Cons by (simp add: matches_def)
  qed
qed

lemma rows_fillna_merge_left:
  assumes "\<forall>l\<in>set L. length (matches l right) \<le> 1"
  shows "map (\<lambda>m. (NOMBRE_DPT m, geometry m, Cantidad_Proyectos m)) (fillna 0 (merge_left L right)) =
         map (\<lambda>l. (NOMBRE_DPT l, geometry l, sum_list (map snd (matches l right)))) L"
  using assms
proof (induction L)
  case Nil
  show ?case by (simp add: merge_left_def fillna_def)
next
  case (Cons l L)
  have step: "merge_left (l # L) right =
      (case matches l right of [] \<Rightarrow> [merge_row l None]
       | ms \<Rightarrow> map (\<lambda>kc. merge_row l (Some kc)) ms) @ merge_left L right"
    by (simp add: merge_left_def)
  have app: "fillna 0 (xs @ ys) = fillna 0 xs @ fillna 0 ys" for xs ys :: "('a, int option) merged_row list"
    by (simp add: fillna_def)
  have "length (matches l right) \<le> 1" using Cons.prems by simp
  then have one: "map (\<lambda>m. (NOMBRE_DPT m, geometry m, Cantidad_Proyectos m)) (fillna 0
      (case matches l right of [] \<Rightarrow> [merge_row l None]
       | ms \<Rightarrow> map (\<lambda>kc. merge_row l (Some kc)) ms)) =
      [(NOMBRE_DPT l, geometry l, sum_list (map snd (matches l right)))]"
    by (cases "matches l right") (simp_all add: fillna_def merge_row_def)
  show ?case using Cons one by (simp add: step app)
qed

lemma count_normalized_dropna:
  "int (length (filter (\<lambda>v. n = normalize v) (dropna (map Departamento P)))) = count_normalized P n"
proof (induction P)
  case Nil
  show ?case by (simp add: count_normalized_def)
next
  case (Cons p P)
  then show ?case by (cases "Departamento p") (auto simp: count_normalized_def)
qed


lemma aggregateByRegion_when_spellings_apart:
  fixes R :: "'g region list" and P :: "('y::linorder) project list"
  assumes "inj_on normalize (set (dropna (map Departamento P)))"
  shows "map (\<lambda>m. (NOMBRE_DPT m, geometry m, Cantidad_Proyectos m)) (aggregateByRegion R P) =
         map (\<lambda>r. (map_option normalize (NOMBRE_DPT r), geometry r,
                    case NOMBRE_DPT r of None \<Rightarrow> 0 | Some n \<Rightarrow> count_normalized P (normalize n))) R"
proof -
  let ?right = "map (\<lambda>(k, c). (normalize k, c)) (value_counts (map Departamento P))"
  let ?n = "\<lambda>r::'g region. r\<lparr>NOMBRE_DPT := map_option normalize (NOMBRE_DPT r)\<rparr>"
  have a: "aggregateByRegion R P = fillna 0 (merge_left (map ?n R) ?right)"
    by (simp add: aggregateByRegion_def procesar_def Let_def)
  have "distinct (map fst ?right)"
    using assms by (rule distinct_keys_proyectos_por_depto)
  then have "\<forall>l\<in>set (map ?n R). length (matches l ?right) \<le> 1"
    using length_matches_le_1 by blast
  then have b: "map (\<lambda>m. (NOMBRE_DPT m, geometry m, Cantidad_Proyectos m))
        (fillna 0 (merge_left (map ?n R) ?right)) =
      map (\<lambda>l. (NOMBRE_DPT l, geometry l, sum_list (map snd (matches l ?right)))) (map ?n R)"
    by (rule rows_fillna_merge_left)
  have s: "sum_list (map snd (matches (?n r) ?right)) =
      (case NOMBRE_DPT r of None \<Rightarrow> 0 | Some n \<Rightarrow> count_normalized P (normalize n))" for r :: "'g region"
    using matches_normalized [of r "map Departamento P"]
    by (cases "NOMBRE_DPT r") (simp_all add: count_normalized_dropna)
  have c: "(NOMBRE_DPT (?n r), geometry (?n r), sum_list (map snd (matches (?n r) ?right))) =
      (map_option normalize (NOMBRE_DPT r), geometry r,
       case NOMBRE_DPT r of None \<Rightarrow> 0 | Some n \<Rightarrow> count_normalized P (normalize n))" for r :: "'g region"
    by (simp only: s) simp
  have "map (\<lambda>l. (NOMBRE_DPT l, geometry l, sum_list (map snd (matches l ?right)))) (map ?n R) =
      map (\<lambda>r. (map_option normalize (NOMBRE_DPT r), geometry r,
                 case NOMBRE_DPT r of None \<Rightarrow> 0 | Some n \<Rightarrow> count_normalized P (normalize n))) R"
    unfolding map_map by (rule map_cong [OF refl]) (simp only: comp_def c)
  with a b show ?thesis by (simp only:)
qed

subsection \<open>Counting before normalizing\<close>

text \<open>
  The counts are taken on the department strings as they are spelled (line 41), and the
  keys are normalized afterwards (line 46). Two spellings of one department are two rows
  of \<open>proyectos_por_depto\<close> with the same key, and the merge pairs the region with both.
\<close>

lemmas eval_defs = aggregateByRegion_def procesar_def value_counts_def unique_def merge_left_def
  fillna_def matches_def merge_row_def Let_def depto_def registro_def str_def normalize_def
  strip_def lstrip_def rstrip_def upper_def upper_cp_def isspace_def

lemma aggregateByRegion_antioquia_choco:
  "aggregateByRegion antioquia_choco tres_registros =
     [\<lparr>NOMBRE_DPT = Some (str ''ANTIOQUIA''), geometry = (),
        Departamento_right = Some (str ''ANTIOQUIA''), Cantidad_Proyectos = 1\<rparr>,
      \<lparr>NOMBRE_DPT = Some (str ''ANTIOQUIA''), geometry = (),
        Departamento_right = Some (str ''ANTIOQUIA''), Cantidad_Proyectos = 1\<rparr>,
      \<lparr>NOMBRE_DPT = Some (str ''CHOCO''), geometry = (),
        Departamento_right = None, Cantidad_Proyectos = 0\<rparr>]"
  by (simp add: antioquia_choco_def tres_registros_def eval_defs)

text \<open>
  C1 asks for exactly one row for every region. On the example of the specification the
  two regions give three rows.
\<close>

theorem more_rows_than_regions:
  "length (aggregateByRegion antioquia_choco tres_registros) = 3 \<and> length antioquia_choco = 2"
  by (simp add: aggregateByRegion_antioquia_choco) (simp add: antioquia_choco_def)

text \<open>
  C2 asks that spellings differing in case or outer white space accumulate into one
  count, \<open>ANTIOQUIA\<close> with 2 on the example. The table of counts has two rows of key
  \<open>ANTIOQUIA\<close>, each with 1, and so has the aggregate.
\<close>

theorem spellings_counted_apart:
  "map (\<lambda>m. (NOMBRE_DPT m, Cantidad_Proyectos m)) (aggregateByRegion antioquia_choco tres_registros) =
     [(Some (str ''ANTIOQUIA''), 1), (Some (str ''ANTIOQUIA''), 1), (Some (str ''CHOCO''), 0)] \<and>
   filter (\<lambda>kc. fst kc = str ''ANTIOQUIA'') (proyectos_por_depto (procesar antioquia_choco tres_registros)) =
     [(str ''ANTIOQUIA'', 1), (str ''ANTIOQUIA'', 1)]"
  by (simp add: aggregateByRegion_antioquia_choco)
    (simp add: antioquia_choco_def tres_registros_def eval_defs)

text \<open>
  C3 asks that a region carries the count of its normalized name. Three records
  normalize to \<open>CESAR\<close>, all of them counted in the total, and the region has two rows,
  with 2 and with 1.
\<close>

theorem region_count_not_normalized_count:
  "map (\<lambda>m. (NOMBRE_DPT m, Cantidad_Proyectos m)) (aggregateByRegion cesar registros_cesar) =
     [(Some (str ''CESAR''), 2), (Some (str ''CESAR''), 1)] \<and>
   count_normalized registros_cesar (str ''CESAR'') = 3 \<and>
   total_de_proyectos (procesar cesar registros_cesar) = 3"
  by (simp add: cesar_def registros_cesar_def count_normalized_def eval_defs)

subsection \<open>The sum of the counts\<close>

text \<open>
  C4, as it is stated for every collection of regions, fails when two regions have the
  same normalized name: a record of that department is counted once for each of them.
\<close>

theorem sum_counts_counterexample:
  "\<not> sum_list (map Cantidad_Proyectos (aggregateByRegion cesar_dos_veces [registro ''Cesar'' None]))
      \<le> int (length [registro ''Cesar'' None])"
  by (simp add: cesar_dos_veces_def eval_defs)

text \<open>
  C4, amended: when the normalized names of the regions are pairwise distinct, the sum
  of the counts of the aggregate per region is at most the number of records, and it is
  that number exactly when every record is matched.
\<close>

theorem sum_counts_le_records:
  assumes "distinct (dropna (map (\<lambda>r. map_option normalize (NOMBRE_DPT r)) R))"
  shows "sum_list (map Cantidad_Proyectos (aggregateByRegion R P)) \<le> int (length P) \<and>
    (sum_list (map Cantidad_Proyectos (aggregateByRegion R P)) = int (length P)
       \<longleftrightarrow> (\<forall>p\<in>set P. matched R p))"
  using sum_aggregateByRegion [OF assms, of P] length_filter_eq_iff [of "matched R" P]
  by simp

theorem sum_counts_le_records_witness:
  "distinct (dropna (map (\<lambda>r. map_option normalize (NOMBRE_DPT r)) antioquia_choco)) \<and>
   sum_list (map Cantidad_Proyectos (aggregateByRegion antioquia_choco tres_registros))
     \<le> int (length tres_registros) \<and>
   \<not> (\<forall>p\<in>set tres_registros. matched antioquia_choco p) \<and>
   sum_list (map Cantidad_Proyectos (aggregateByRegion antioquia_choco tres_registros))
     \<noteq> int (length tres_registros)"
proof -
  have d: "distinct (dropna (map (\<lambda>r. map_option normalize (NOMBRE_DPT r)) antioquia_choco))"
    by (simp add: antioquia_choco_def depto_def str_def normalize_def
        strip_def lstrip_def rstrip_def upper_def upper_cp_def isspace_def)
  have m: "\<not> matched antioquia_choco (registro ''Valle'' None)"
    by (simp add: matched_def antioquia_choco_def depto_def registro_def str_def normalize_def
        strip_def lstrip_def rstrip_def upper_def upper_cp_def isspace_def)
  have n: "\<not> (\<forall>p\<in>set tres_registros. matched antioquia_choco p)"
    using m by (simp add: tres_registros_def)
  show ?thesis
    using d n sum_counts_le_records [OF d, of tres_registros] by blast
qed

subsection \<open>The region collection after the aggregation\<close>

text \<open>
  C9, as it is stated, fails: line 47 assigns the normalized names to the column
  \<open>NOMBRE_DPT\<close> of \<open>gdf\<close> itself.
\<close>

theorem gdf_unchanged_counterexample:
  "gdf (procesar cesar registros_cesar) \<noteq> cesar"
  by (simp add: cesar_def registros_cesar_def eval_defs)

text \<open>
  C9, amended: the aggregation replaces the name of every region by its normalization
  and leaves the geometry, the number and the order of the regions and the records as
  they are; the region collection is unchanged exactly when every name is normalized
  already.
\<close>

theorem gdf_names_normalized:
  "map geometry (gdf (procesar R P)) = map geometry R \<and>
   map NOMBRE_DPT (gdf (procesar R P)) = map (\<lambda>r. map_option normalize (NOMBRE_DPT r)) R \<and>
   (gdf (procesar R P) = R \<longleftrightarrow> (\<forall>r\<in>set R. map_option normalize (NOMBRE_DPT r) = NOMBRE_DPT r)) \<and>
   df_excel (procesar R P) = P"
proof -
  let ?f = "\<lambda>r::'a region. r\<lparr>NOMBRE_DPT := map_option normalize (NOMBRE_DPT r)\<rparr>"
  have g: "gdf (procesar R P) = map ?f R"
    by (simp add: procesar_def Let_def)
  have e: "?f r = r \<longleftrightarrow> map_option normalize (NOMBRE_DPT r) = NOMBRE_DPT r" for r :: "'a region"
    by (cases r) simp
  have "map ?f R = R \<longleftrightarrow> (\<forall>r\<in>set R. ?f r = r)"
    by (induction R) auto
  then have "gdf (procesar R P) = R \<longleftrightarrow> (\<forall>r\<in>set R. map_option normalize (NOMBRE_DPT r) = NOMBRE_DPT r)"
    by (simp only: g e)
  moreover have "df_excel (procesar R P) = P"
    by (simp add: procesar_def Let_def)
  ultimately show ?thesis by (simp add: g comp_def)
qed

theorem gdf_names_normalized_witness:
  "list_all (\<lambda>r. map_option normalize (NOMBRE_DPT r) = NOMBRE_DPT r) antioquia_choco \<and>
   gdf (procesar antioquia_choco tres_registros) = antioquia_choco \<and>
   \<not> list_all (\<lambda>r. map_option normalize (NOMBRE_DPT r) = NOMBRE_DPT r) cesar \<and>
   gdf (procesar cesar registros_cesar) \<noteq> cesar \<and>
   map NOMBRE_DPT (gdf (procesar cesar registros_cesar)) = [Some (str ''CESAR'')]"
proof -
  have a: "list_all (\<lambda>r. map_option normalize (NOMBRE_DPT r) = NOMBRE_DPT r) antioquia_choco"
    by (simp add: antioquia_choco_def depto_def str_def normalize_def
        strip_def lstrip_def rstrip_def upper_def upper_cp_def isspace_def)
  have c: "map (\<lambda>r. map_option normalize (NOMBRE_DPT r)) cesar = [Some (str ''CESAR'')]"
    by (simp add: cesar_def depto_def str_def normalize_def
        strip_def lstrip_def rstrip_def upper_def upper_cp_def isspace_def)
  have n: "\<not> list_all (\<lambda>r. map_option normalize (NOMBRE_DPT r) = NOMBRE_DPT r) cesar"
    by (simp add: cesar_def depto_def str_def normalize_def
        strip_def lstrip_def rstrip_def upper_def upper_cp_def isspace_def)
  show ?thesis
    using a c n gdf_names_normalized [of antioquia_choco tres_registros]
      gdf_names_normalized [of cesar registros_cesar]
    by (simp add: list_all_iff)
qed

section \<open>Empty inputs\<close>

text \<open>
  C8 asks for an empty aggregate per region, an empty aggregate per year and a total
  of 0 when there is no region and no record. The frame of a file without features has
  no column \<open>NOMBRE_DPT\<close>: after the loader has returned both frames, line 47 raises
  \<open>KeyError\<close>, and no aggregate and no metric is computed. The script does provide for
  empty data further down, at lines 139 and 145.
\<close>

theorem empty_inputs_raise:
  "cargar_datos \<lparr>read_file = Inr (GeoDataFrame_sin_NOMBRE_DPT ([] :: unit list)),
       read_excel = Inr (hoja ([] :: int project list))\<rparr> =
     Inr ((Some (GeoDataFrame_sin_NOMBRE_DPT []), Some (hoja [])), []) \<and>
   ejecutar (GeoDataFrame_sin_NOMBRE_DPT ([] :: unit list)) (hoja ([] :: int project list)) =
     Inl (KeyError ''NOMBRE_DPT'') \<and>
   app \<lparr>read_file = Inr (GeoDataFrame_sin_NOMBRE_DPT ([] :: unit list)),
       read_excel = Inr (hoja ([] :: int project list))\<rparr> =
     Inr (Uncaught (KeyError ''NOMBRE_DPT''), [])"
  by (simp add: app_def cargar_datos_def render_def ejecutar_def hoja_def)

end
